theory Spec2Isabelle
  imports Main "HOL-Library.Multiset"
begin

section \<open>Data model (types/index.ts)\<close>

text \<open>
  A card carries its number and its pig value; JavaScript numbers that hold card numbers,
  pig values and scores are modelled as unbounded integers.
\<close>

record card =
  number :: int
  pigs :: int

record table_row =
  cards :: "card list"

text \<open>The \<open>Player\<close> interface, with the fields the game logic reads.\<close>

record player =
  pid :: string
  nickname :: string
  score :: int
  hand :: "card list"
  selectedCard :: "card option"

text \<open>
  The only run-time failure the game logic can raise is the \<open>TypeError\<close> of reading a
  property of \<open>undefined\<close>, or of reducing an empty array without an initial value.
\<close>

datatype js_error = TypeError

text \<open>
  Reading an array by index: an index outside the array yields \<open>undefined\<close>, written
  \<open>None\<close>.
\<close>

definition js_index :: "'a list \<Rightarrow> int \<Rightarrow> 'a option" where
  "js_index xs i = (if 0 \<le> i \<and> i < int (length xs) then Some (xs ! nat i) else None)"

text \<open>The remainder operator \<open>%\<close> takes the sign of the dividend.\<close>

definition js_rem :: "int \<Rightarrow> int \<Rightarrow> int" where
  "js_rem a b = sgn a * (\<bar>a\<bar> mod \<bar>b\<bar>)"

section \<open>Deck model (utils/gameLogic.ts)\<close>

definition SPECIAL_DOUBLES :: "int list" where
  "SPECIAL_DOUBLES = [11, 22, 33, 44, 55, 66, 77, 88, 99]"

definition calculatePigValue :: "int \<Rightarrow> int" where
  "calculatePigValue cardNumber =
     (if cardNumber \<in> set SPECIAL_DOUBLES then - 11
      else if js_rem cardNumber 10 = 5 then 2
      else if js_rem cardNumber 10 = 0 then 3
      else 1)"

definition createDeck :: "card list" where
  "createDeck = map (\<lambda>i. \<lparr>number = i, pigs = calculatePigValue i\<rparr>) [1..104]"

text \<open>
  Fisher-Yates shuffle. The random source is a parameter: \<open>rnd i\<close> is the value of
  \<open>Math.floor(Math.random() * (i + 1))\<close> drawn in the iteration with index \<open>i\<close>, so
  \<open>rnd i \<le> i\<close> for every draw the library can make.
\<close>

fun shuffleLoop :: "(nat \<Rightarrow> nat) \<Rightarrow> nat \<Rightarrow> 'a list \<Rightarrow> 'a list" where
  "shuffleLoop rnd 0 shuffled = shuffled"
| "shuffleLoop rnd (Suc i) shuffled =
     (let j = rnd (Suc i)
      in shuffleLoop rnd i (shuffled[Suc i := shuffled ! j, j := shuffled ! Suc i]))"

definition shuffleDeck :: "(nat \<Rightarrow> nat) \<Rightarrow> 'a list \<Rightarrow> 'a list" where
  "shuffleDeck rnd deck = shuffleLoop rnd (length deck - 1) deck"

section \<open>Dealing\<close>

text \<open>
  \<open>hand.sort((a, b) => a.number - b.number)\<close>: the sort is stable, never passes
  \<open>undefined\<close> to the comparator and moves every \<open>undefined\<close> element to the end.
\<close>

definition sortHand :: "card option list \<Rightarrow> card option list" where
  "sortHand h =
     map Some (sort_key number (List.map_filter (\<lambda>x. x) h)) @ filter (\<lambda>x. x = None) h"

text \<open>The inner loop of \<open>dealCards\<close>; the third argument counts the iterations left.\<close>

fun dealHand :: "card list \<Rightarrow> nat \<Rightarrow> nat \<Rightarrow> card option list \<Rightarrow> card option list \<times> nat" where
  "dealHand deck deckIndex 0 h = (h, deckIndex)"
| "dealHand deck deckIndex (Suc k) h =
     dealHand deck (Suc deckIndex) k (h @ [js_index deck (int deckIndex)])"

text \<open>The outer loop, one hand for each player left.\<close>

fun dealLoop ::
  "card list \<Rightarrow> nat \<Rightarrow> nat \<Rightarrow> card option list list \<Rightarrow> card option list list \<times> nat" where
  "dealLoop deck deckIndex 0 hs = (hs, deckIndex)"
| "dealLoop deck deckIndex (Suc k) hs =
     (case dealHand deck deckIndex 10 [] of
        (h, deckIndex') \<Rightarrow> dealLoop deck deckIndex' k (hs @ [sortHand h]))"

record deal =
  hands :: "card option list list"
  remainingDeck :: "card list"

definition dealCards :: "card list \<Rightarrow> nat \<Rightarrow> deal" where
  "dealCards deck numPlayers =
     (case dealLoop deck 0 numPlayers [] of
        (hs, deckIndex) \<Rightarrow> \<lparr>hands = hs, remainingDeck = drop deckIndex deck\<rparr>)"

section \<open>Placement policy and row resolution\<close>

text \<open>
  The loop of \<open>findRowForCard\<close> over the rows from index \<open>i\<close> on. \<open>smallestDifference\<close>
  starts at \<open>Infinity\<close>, written \<open>None\<close>. Reading the last card of an empty row gives
  \<open>undefined\<close>, whose \<open>number\<close> cannot be read.
\<close>

fun findRowLoop ::
  "card \<Rightarrow> table_row list \<Rightarrow> int \<Rightarrow> int \<Rightarrow> int option \<Rightarrow> js_error + int" where
  "findRowLoop c [] i bestRowIndex smallestDifference = Inr bestRowIndex"
| "findRowLoop c (r # rs) i bestRowIndex smallestDifference =
     (if cards r = [] then Inl TypeError
      else
        let lastCard = last (cards r) in
        if number c > number lastCard then
          let difference = number c - number lastCard in
          if (case smallestDifference of None \<Rightarrow> True | Some d \<Rightarrow> difference < d)
          then findRowLoop c rs (i + 1) i (Some difference)
          else findRowLoop c rs (i + 1) bestRowIndex smallestDifference
        else findRowLoop c rs (i + 1) bestRowIndex smallestDifference)"

definition findRowForCard :: "card \<Rightarrow> table_row list \<Rightarrow> js_error + int" where
  "findRowForCard c rows = findRowLoop c rows 0 (- 1) None"

definition calculateRowPigs :: "table_row \<Rightarrow> int" where
  "calculateRowPigs row = foldl (\<lambda>sum c. sum + pigs c) 0 (cards row)"

record placement =
  newRows :: "table_row list"
  pigsTaken :: int
  cardsTaken :: "card list"

definition placeCardInRow :: "card \<Rightarrow> int \<Rightarrow> table_row list \<Rightarrow> js_error + placement" where
  "placeCardInRow c rowIndex rows =
     (case js_index rows rowIndex of
        None \<Rightarrow> Inl TypeError
      | Some targetRow \<Rightarrow>
          if length (cards targetRow) \<ge> 5
          then Inr \<lparr>newRows = rows[nat rowIndex := \<lparr>cards = [c]\<rparr>],
                    pigsTaken = calculateRowPigs targetRow,
                    cardsTaken = cards targetRow\<rparr>
          else Inr \<lparr>newRows = rows[nat rowIndex := \<lparr>cards = cards targetRow @ [c]\<rparr>],
                    pigsTaken = 0,
                    cardsTaken = []\<rparr>)"

definition takeRow :: "card \<Rightarrow> int \<Rightarrow> table_row list \<Rightarrow> js_error + placement" where
  "takeRow c rowIndex rows =
     (case js_index rows rowIndex of
        None \<Rightarrow> Inl TypeError
      | Some row \<Rightarrow>
          Inr \<lparr>newRows = rows[nat rowIndex := \<lparr>cards = [c]\<rparr>],
               pigsTaken = calculateRowPigs row,
               cardsTaken = cards row\<rparr>)"

section \<open>Round and game lifecycle\<close>

definition isGameOver :: "player list \<Rightarrow> bool" where
  "isGameOver players = (\<exists>p \<in> set players. score p \<ge> 66)"

text \<open>\<open>reduce\<close> without an initial value: it throws on an empty array.\<close>

definition getWinner :: "player list \<Rightarrow> js_error + player" where
  "getWinner players =
     (case players of
        [] \<Rightarrow> Inl TypeError
      | p # ps \<Rightarrow> Inr (foldl (\<lambda>winner q. if score q < score winner then q else winner) p ps))"

definition isRoundComplete :: "player list \<Rightarrow> bool" where
  "isRoundComplete players = list_all (\<lambda>p. length (hand p) = 0) players"

text \<open>The numbers of the cards on the table, in the order the nested loops push them.\<close>

definition tableNumbers :: "table_row list \<Rightarrow> int list" where
  "tableNumbers existingRows = concat (map (\<lambda>row. map number (cards row)) existingRows)"

text \<open>
  The result of \<open>startNewRound\<close>; its \<open>hands\<close> field is written \<open>dealtHands\<close> here,
  the name \<open>hands\<close> being taken by the result of \<open>dealCards\<close>.
\<close>

record new_round =
  dealtHands :: "card option list list"
  cardsOnTable :: "int list"

definition startNewRound :: "(nat \<Rightarrow> nat) \<Rightarrow> nat \<Rightarrow> table_row list \<Rightarrow> new_round" where
  "startNewRound rnd numPlayers existingRows =
     (let cardsOnTable = tableNumbers existingRows;
          deck = filter (\<lambda>c. number c \<notin> set cardsOnTable) createDeck;
          deck = shuffleDeck rnd deck
      in \<lparr>dealtHands = hands (dealCards deck numPlayers), cardsOnTable = cardsOnTable\<rparr>)"

section \<open>Orchestrator (screens/GameScreen.tsx)\<close>

text \<open>The \<open>LobbyPlayer\<close> rows the game screen works on.\<close>

record lobby_player =
  player_id :: string
  nickname_lp :: string
  score_lp :: int
  hand_lp :: "card list"
  selected_card :: "card option"

text \<open>The round-over check made at the end of \<open>processCardPlacements\<close>.\<close>

definition allHandsEmpty :: "lobby_player list \<Rightarrow> bool" where
  "allHandsEmpty players =
     (length players > 0 \<and>
      list_all (\<lambda>p. length (filter (\<lambda>c. Some (number c) \<noteq> map_option number (selected_card p))
                                 (hand_lp p)) = 0) players)"

text \<open>A revealed card; the field \<open>card\<close> of the source is written \<open>rcard\<close>.\<close>

record revealed_card =
  playerId :: string
  playerName :: string
  rcard :: card

text \<open>The players' selections, as \<open>processRevealAndPlace\<close> collects them.\<close>

definition revealedOf :: "lobby_player list \<Rightarrow> revealed_card list" where
  "revealedOf players =
     List.map_filter
       (\<lambda>p. case selected_card p of
               None \<Rightarrow> None
             | Some c \<Rightarrow> Some \<lparr>playerId = player_id p, playerName = nickname_lp p, rcard = c\<rparr>)
       players"

definition sortRevealedCards :: "revealed_card list \<Rightarrow> revealed_card list" where
  "sortRevealedCards revealed = sort_key (\<lambda>r. number (rcard r)) revealed"

text \<open>\<open>playerScoreUpdates[pid] = (playerScoreUpdates[pid] || 0) + pigsTaken\<close>\<close>

definition addPigs :: "(string \<rightharpoonup> int) \<Rightarrow> string \<Rightarrow> int \<Rightarrow> (string \<rightharpoonup> int)" where
  "addPigs updates p n = updates(p \<mapsto> (case updates p of None \<Rightarrow> 0 | Some v \<Rightarrow> v) + n)"

text \<open>The inline choice of the row with the fewest pigs, the first such row winning.\<close>

fun minPigsLoop :: "table_row list \<Rightarrow> int \<Rightarrow> int option \<Rightarrow> int \<Rightarrow> int" where
  "minPigsLoop [] i minPigs minIndex = minIndex"
| "minPigsLoop (r # rs) i minPigs minIndex =
     (let rowPigs = foldl (\<lambda>sum c. sum + pigs c) 0 (cards r) in
      if (case minPigs of None \<Rightarrow> True | Some m \<Rightarrow> rowPigs < m)
      then minPigsLoop rs (i + 1) (Some rowPigs) i
      else minPigsLoop rs (i + 1) minPigs minIndex)"

text \<open>
  The state the placement loops thread through. \<open>resolved\<close> is a ghost field: it logs
  each revealed card at the moment its placement or capture replaces \<open>currentRows\<close>.
\<close>

record resolution =
  currentRows :: "table_row list"
  playerScoreUpdates :: "string \<rightharpoonup> int"
  resolved :: "revealed_card list"

text \<open>
  \<open>processCardPlacements\<close> (the game screen with row selection). Its first loop places
  every card that has a target row and sets the others aside; its second loop lets each
  card set aside capture a row. The local player's choice of row, which the screen awaits,
  is the parameter \<open>waitForRowSelection\<close>; \<open>me\<close> is the local player's id.
\<close>

fun firstPass ::
  "revealed_card list \<Rightarrow> resolution \<Rightarrow> revealed_card list
     \<Rightarrow> js_error + (resolution \<times> revealed_card list)" where
  "firstPass [] st cardsNeedingRowSelection = Inr (st, cardsNeedingRowSelection)"
| "firstPass (rc # rest) st cardsNeedingRowSelection =
     (case findRowForCard (rcard rc) (currentRows st) of
        Inl e \<Rightarrow> Inl e
      | Inr rowIndex \<Rightarrow>
          if rowIndex = - 1 then firstPass rest st (cardsNeedingRowSelection @ [rc])
          else
            (case placeCardInRow (rcard rc) rowIndex (currentRows st) of
               Inl e \<Rightarrow> Inl e
             | Inr pl \<Rightarrow>
                 firstPass rest
                   \<lparr>currentRows = newRows pl,
                    playerScoreUpdates =
                      (if pigsTaken pl \<noteq> 0
                       then addPigs (playerScoreUpdates st) (playerId rc) (pigsTaken pl)
                       else playerScoreUpdates st),
                    resolved = resolved st @ [rc]\<rparr>
                   cardsNeedingRowSelection))"

fun secondPass ::
  "string \<Rightarrow> (card \<Rightarrow> table_row list \<Rightarrow> int) \<Rightarrow> revealed_card list \<Rightarrow> resolution
     \<Rightarrow> js_error + resolution" where
  "secondPass me waitForRowSelection [] st = Inr st"
| "secondPass me waitForRowSelection (rc # rest) st =
     (let rowIndex =
            (if playerId rc = me then waitForRowSelection (rcard rc) (currentRows st)
             else minPigsLoop (currentRows st) 0 None 0)
      in case takeRow (rcard rc) rowIndex (currentRows st) of
           Inl e \<Rightarrow> Inl e
         | Inr pl \<Rightarrow>
             secondPass me waitForRowSelection rest
               \<lparr>currentRows = newRows pl,
                playerScoreUpdates = addPigs (playerScoreUpdates st) (playerId rc) (pigsTaken pl),
                resolved = resolved st @ [rc]\<rparr>)"

definition processCardPlacements ::
  "string \<Rightarrow> (card \<Rightarrow> table_row list \<Rightarrow> int) \<Rightarrow> table_row list \<Rightarrow> revealed_card list
     \<Rightarrow> js_error + resolution" where
  "processCardPlacements me waitForRowSelection tableRows sortedCards =
     (case firstPass sortedCards
             \<lparr>currentRows = tableRows, playerScoreUpdates = Map.empty, resolved = []\<rparr> [] of
        Inl e \<Rightarrow> Inl e
      | Inr (st, cardsNeedingRowSelection) \<Rightarrow>
          secondPass me waitForRowSelection cardsNeedingRowSelection st)"

text \<open>
  The loop of \<open>processRevealAndPlace\<close> in the game screen without row selection: each
  card is placed or captures the row with the fewest pigs at once.
\<close>

fun placeLoop ::
  "lobby_player list \<Rightarrow> revealed_card list \<Rightarrow> resolution \<Rightarrow> js_error + resolution" where
  "placeLoop players [] st = Inr st"
| "placeLoop players (rc # rest) st =
     (if \<not> list_ex (\<lambda>p. player_id p = playerId rc) players then placeLoop players rest st
      else
        (case findRowForCard (rcard rc) (currentRows st) of
           Inl e \<Rightarrow> Inl e
         | Inr rowIndex \<Rightarrow>
             if rowIndex = - 1 then
               (case takeRow (rcard rc) (minPigsLoop (currentRows st) 0 None 0) (currentRows st) of
                  Inl e \<Rightarrow> Inl e
                | Inr pl \<Rightarrow>
                    placeLoop players rest
                      \<lparr>currentRows = newRows pl,
                       playerScoreUpdates =
                         addPigs (playerScoreUpdates st) (playerId rc) (pigsTaken pl),
                       resolved = resolved st @ [rc]\<rparr>)
             else
               (case placeCardInRow (rcard rc) rowIndex (currentRows st) of
                  Inl e \<Rightarrow> Inl e
                | Inr pl \<Rightarrow>
                    placeLoop players rest
                      \<lparr>currentRows = newRows pl,
                       playerScoreUpdates =
                         (if pigsTaken pl \<noteq> 0
                          then addPigs (playerScoreUpdates st) (playerId rc) (pigsTaken pl)
                          else playerScoreUpdates st),
                       resolved = resolved st @ [rc]\<rparr>)))"

definition processRevealAndPlace :: "lobby_player list \<Rightarrow> table_row list \<Rightarrow> js_error + resolution" where
  "processRevealAndPlace players tableRows =
     placeLoop players (sortRevealedCards (revealedOf players))
       \<lparr>currentRows = tableRows, playerScoreUpdates = Map.empty, resolved = []\<rparr>"

section \<open>Notions used in the statements\<close>

text \<open>The number of the last card of a row, which \<open>findRowForCard\<close> compares with.\<close>

definition lastNumber :: "table_row \<Rightarrow> int" where
  "lastNumber r = number (last (cards r))"

text \<open>
  The invariant of the loop of \<open>findRowForCard\<close> over the rows seen so far: either no
  row qualifies yet, or \<open>k\<close> is the first row among those with the closest last card
  below the card's number.
\<close>

definition best_ok :: "card \<Rightarrow> table_row list \<Rightarrow> int \<Rightarrow> int option \<Rightarrow> bool" where
  "best_ok c rows k sd \<longleftrightarrow>
     (k = - 1 \<and> sd = None \<and> (\<forall>r \<in> set rows. number c \<le> lastNumber r))
     \<or> (0 \<le> k \<and> k < int (length rows)
        \<and> sd = Some (number c - lastNumber (rows ! nat k))
        \<and> lastNumber (rows ! nat k) < number c
        \<and> (\<forall>j<length rows. lastNumber (rows ! j) < number c \<longrightarrow>
              lastNumber (rows ! j) \<le> lastNumber (rows ! nat k))
        \<and> (\<forall>j<nat k. lastNumber (rows ! j) < number c \<longrightarrow>
              lastNumber (rows ! j) < lastNumber (rows ! nat k)))"

text \<open>The ten deck positions from \<open>di\<close> on, as the inner loop of \<open>dealCards\<close> reads them.\<close>

definition slots :: "card list \<Rightarrow> nat \<Rightarrow> card option list" where
  "slots deck di = map (\<lambda>j. js_index deck (int j)) [di..<di + 10]"

section \<open>Penalty table\<close>

lemma js_rem_nonneg: "0 \<le> a \<Longrightarrow> js_rem a 10 = a mod 10"
  by (cases "a = 0") (simp_all add: js_rem_def)

text \<open>
  Claim C4. For every number from 1 to 104, \<open>calculatePigValue\<close> returns -11 on the nine
  doubles 11, 22, ..., 99, otherwise 2 when the number ends in 5, otherwise 3 when it ends
  in 0, otherwise 1; the doubles come first, so 55 is worth -11, 90 is worth 3 and 7 is
  worth 1.
\<close>

theorem calculatePigValue_table:
  "1 \<le> n \<and> n \<le> 104 \<longrightarrow>
     calculatePigValue n =
       (if n \<in> {11, 22, 33, 44, 55, 66, 77, 88, 99} then - 11
        else if n mod 10 = 5 then 2
        else if n mod 10 = 0 then 3
        else 1)"
  by (simp add: calculatePigValue_def SPECIAL_DOUBLES_def js_rem_nonneg)

theorem calculatePigValue_table_witness:
  "calculatePigValue 55 = - 11 \<and> calculatePigValue 90 = 3 \<and> calculatePigValue 7 = 1
   \<and> calculatePigValue 15 = 2 \<and> calculatePigValue 104 = 1"
  using calculatePigValue_table [of 55] calculatePigValue_table [of 90]
    calculatePigValue_table [of 7] calculatePigValue_table [of 15]
    calculatePigValue_table [of 104]
  by simp

section \<open>Row resolution\<close>

lemma foldl_pigs: "foldl (\<lambda>sum c. sum + pigs c) a cs = a + sum_list (map pigs cs)"
  by (induction cs arbitrary: a) simp_all

lemma calculateRowPigs_sum: "calculateRowPigs row = sum_list (map pigs (cards row))"
  by (simp add: calculateRowPigs_def foldl_pigs)

text \<open>
  Claim C2. When row \<open>i\<close> of the table holds exactly 5 cards, \<open>placeCardInRow\<close> returns
  the sum of the pig values of those 5 cards as \<open>pigsTaken\<close>, those 5 cards as
  \<open>cardsTaken\<close>, and a table whose row \<open>i\<close> holds the new card alone. When row \<open>i\<close>
  holds fewer than 5 cards, it returns the table with the card appended to row \<open>i\<close>, no
  pigs and no cards taken.
\<close>

theorem placeCardInRow_spec:
  assumes "0 \<le> i" and "i < int (length rows)"
  shows "(length (cards (rows ! nat i)) = 5 \<longrightarrow>
           (\<exists>r. placeCardInRow c i rows = Inr r
              \<and> pigsTaken r = sum_list (map pigs (cards (rows ! nat i)))
              \<and> cardsTaken r = cards (rows ! nat i)
              \<and> newRows r = rows[nat i := \<lparr>cards = [c]\<rparr>]
              \<and> cards (newRows r ! nat i) = [c]))
       \<and> (length (cards (rows ! nat i)) < 5 \<longrightarrow>
           (\<exists>r. placeCardInRow c i rows = Inr r
              \<and> pigsTaken r = 0
              \<and> cardsTaken r = []
              \<and> newRows r = rows[nat i := \<lparr>cards = cards (rows ! nat i) @ [c]\<rparr>]))"
  using assms by (simp add: placeCardInRow_def js_index_def calculateRowPigs_sum)

theorem placeCardInRow_spec_witness:
  "(\<exists>r. placeCardInRow \<lparr>number = 60, pigs = 3\<rparr> 1
          [\<lparr>cards = [\<lparr>number = 3, pigs = 1\<rparr>]\<rparr>,
           \<lparr>cards = [\<lparr>number = 10, pigs = 3\<rparr>, \<lparr>number = 11, pigs = - 11\<rparr>,
                     \<lparr>number = 15, pigs = 2\<rparr>, \<lparr>number = 20, pigs = 3\<rparr>,
                     \<lparr>number = 21, pigs = 1\<rparr>]\<rparr>] = Inr r
        \<and> pigsTaken r = - 2 \<and> length (cardsTaken r) = 5
        \<and> cards (newRows r ! 1) = [\<lparr>number = 60, pigs = 3\<rparr>])
   \<and> (\<exists>r. placeCardInRow \<lparr>number = 60, pigs = 3\<rparr> 0
          [\<lparr>cards = [\<lparr>number = 3, pigs = 1\<rparr>]\<rparr>,
           \<lparr>cards = [\<lparr>number = 10, pigs = 3\<rparr>]\<rparr>] = Inr r
        \<and> pigsTaken r = 0 \<and> cardsTaken r = []
        \<and> cards (newRows r ! 0) = [\<lparr>number = 3, pigs = 1\<rparr>, \<lparr>number = 60, pigs = 3\<rparr>])"
  using placeCardInRow_spec [of 1 "[\<lparr>cards = [\<lparr>number = 3, pigs = 1\<rparr>]\<rparr>,
           \<lparr>cards = [\<lparr>number = 10, pigs = 3\<rparr>, \<lparr>number = 11, pigs = - 11\<rparr>,
                     \<lparr>number = 15, pigs = 2\<rparr>, \<lparr>number = 20, pigs = 3\<rparr>,
                     \<lparr>number = 21, pigs = 1\<rparr>]\<rparr>]" "\<lparr>number = 60, pigs = 3\<rparr>"]
    placeCardInRow_spec [of 0 "[\<lparr>cards = [\<lparr>number = 3, pigs = 1\<rparr>]\<rparr>,
           \<lparr>cards = [\<lparr>number = 10, pigs = 3\<rparr>]\<rparr>]" "\<lparr>number = 60, pigs = 3\<rparr>"]
  by auto

text \<open>
  Claim C8. On a table of exactly 4 rows and a row index from 0 to 3, both
  \<open>placeCardInRow\<close> and \<open>takeRow\<close> return a table of exactly 4 rows: a capture replaces
  the row, it never removes it.
\<close>

theorem table_keeps_four_rows:
  assumes "length rows = 4" and "0 \<le> i" and "i < 4"
  shows "(\<exists>r. placeCardInRow c i rows = Inr r \<and> length (newRows r) = 4)
       \<and> (\<exists>r. takeRow c i rows = Inr r \<and> length (newRows r) = 4)"
  using assms by (simp add: placeCardInRow_def takeRow_def js_index_def)

theorem table_keeps_four_rows_witness:
  "(\<exists>r. placeCardInRow \<lparr>number = 60, pigs = 3\<rparr> 1
          [\<lparr>cards = [\<lparr>number = 3, pigs = 1\<rparr>]\<rparr>,
           \<lparr>cards = [\<lparr>number = 10, pigs = 3\<rparr>, \<lparr>number = 11, pigs = - 11\<rparr>,
                     \<lparr>number = 15, pigs = 2\<rparr>, \<lparr>number = 20, pigs = 3\<rparr>,
                     \<lparr>number = 21, pigs = 1\<rparr>]\<rparr>,
           \<lparr>cards = [\<lparr>number = 70, pigs = 3\<rparr>]\<rparr>,
           \<lparr>cards = [\<lparr>number = 91, pigs = 1\<rparr>]\<rparr>] = Inr r
        \<and> length (newRows r) = 4)
   \<and> (\<exists>r. takeRow \<lparr>number = 60, pigs = 3\<rparr> 1
          [\<lparr>cards = [\<lparr>number = 3, pigs = 1\<rparr>]\<rparr>,
           \<lparr>cards = [\<lparr>number = 10, pigs = 3\<rparr>, \<lparr>number = 11, pigs = - 11\<rparr>,
                     \<lparr>number = 15, pigs = 2\<rparr>, \<lparr>number = 20, pigs = 3\<rparr>,
                     \<lparr>number = 21, pigs = 1\<rparr>]\<rparr>,
           \<lparr>cards = [\<lparr>number = 70, pigs = 3\<rparr>]\<rparr>,
           \<lparr>cards = [\<lparr>number = 91, pigs = 1\<rparr>]\<rparr>] = Inr r
        \<and> length (newRows r) = 4)"
  using table_keeps_four_rows [of
          "[\<lparr>cards = [\<lparr>number = 3, pigs = 1\<rparr>]\<rparr>,
           \<lparr>cards = [\<lparr>number = 10, pigs = 3\<rparr>, \<lparr>number = 11, pigs = - 11\<rparr>,
                     \<lparr>number = 15, pigs = 2\<rparr>, \<lparr>number = 20, pigs = 3\<rparr>,
                     \<lparr>number = 21, pigs = 1\<rparr>]\<rparr>,
           \<lparr>cards = [\<lparr>number = 70, pigs = 3\<rparr>]\<rparr>,
           \<lparr>cards = [\<lparr>number = 91, pigs = 1\<rparr>]\<rparr>]" 1 "\<lparr>number = 60, pigs = 3\<rparr>"]
  by simp

section \<open>Round and game lifecycle: winner and round-over checks\<close>

lemma getWinner_fold:
  "\<exists>i<length (p # ps).
     foldl (\<lambda>winner q. if score q < score winner then q else winner) p ps = (p # ps) ! i
     \<and> (\<forall>j<length (p # ps). score ((p # ps) ! i) \<le> score ((p # ps) ! j))
     \<and> (\<forall>j<i. score ((p # ps) ! i) < score ((p # ps) ! j))"
proof (induction ps rule: rev_induct)
  case Nil
  then show ?case by simp
next
  case (snoc q ps)
  let ?f = "\<lambda>winner q. if score q < score winner then q else winner"
  define xs where "xs = p # ps"
  define w where "w = foldl ?f p ps"
  from snoc obtain i where i: "i < length xs" "w = xs ! i"
    "\<forall>j<length xs. score (xs ! i) \<le> score (xs ! j)"
    "\<forall>j<i. score (xs ! i) < score (xs ! j)"
    unfolding xs_def w_def by blast
  have app: "p # ps @ [q] = xs @ [q]" by (simp add: xs_def)
  have step: "foldl ?f p (ps @ [q]) = (if score q < score w then q else w)"
    by (simp add: w_def)
  have "\<exists>k<length (xs @ [q]). (if score q < score w then q else w) = (xs @ [q]) ! k
          \<and> (\<forall>j<length (xs @ [q]). score ((xs @ [q]) ! k) \<le> score ((xs @ [q]) ! j))
          \<and> (\<forall>j<k. score ((xs @ [q]) ! k) < score ((xs @ [q]) ! j))"
  proof (cases "score q < score w")
    case True
    have "\<forall>j<length xs. score q < score (xs ! j)"
      using True i(2,3) by fastforce
    then show ?thesis
      using True by (intro exI[of _ "length xs"]) (auto simp: nth_append less_Suc_eq)
  next
    case False
    then show ?thesis
      using i by (intro exI[of _ i]) (auto simp: nth_append less_Suc_eq)
  qed
  then show ?case unfolding app step .
qed

text \<open>
  Claim C10. On a non-empty list of participants \<open>getWinner\<close> returns a participant whose
  score is at most every participant's score, and among the participants with that
  minimal score it returns the first in list order.
\<close>

theorem getWinner_first_minimum:
  assumes "players \<noteq> []"
  shows "\<exists>i<length players. getWinner players = Inr (players ! i)
           \<and> (\<forall>j<length players. score (players ! i) \<le> score (players ! j))
           \<and> (\<forall>j<i. score (players ! i) < score (players ! j))"
proof -
  from assms obtain p ps where ps: "players = p # ps" by (cases players) auto
  show ?thesis
    unfolding ps getWinner_def using getWinner_fold [of p ps] by simp
qed

theorem getWinner_first_minimum_witness:
  "getWinner
     [\<lparr>pid = ''a'', nickname = ''Ann'', score = 12, hand = [], selectedCard = None\<rparr>,
      \<lparr>pid = ''b'', nickname = ''Bob'', score = 4, hand = [], selectedCard = None\<rparr>,
      \<lparr>pid = ''c'', nickname = ''Cy'', score = 4, hand = [], selectedCard = None\<rparr>]
   = Inr \<lparr>pid = ''b'', nickname = ''Bob'', score = 4, hand = [], selectedCard = None\<rparr>"
  using getWinner_first_minimum [of
     "[\<lparr>pid = ''a'', nickname = ''Ann'', score = 12, hand = [], selectedCard = None\<rparr>,
       \<lparr>pid = ''b'', nickname = ''Bob'', score = 4, hand = [], selectedCard = None\<rparr>,
       \<lparr>pid = ''c'', nickname = ''Cy'', score = 4, hand = [], selectedCard = None\<rparr>]"]
  by (simp add: getWinner_def)

text \<open>
  The claim C5 as stated fails: a participant whose hand holds only the selected card
  makes \<open>isRoundComplete\<close> false, although the hand without that card is empty.
\<close>

theorem isRoundComplete_counterexample:
  "\<not> (isRoundComplete
         [\<lparr>pid = ''a'', nickname = ''Ann'', score = 0,
           hand = [\<lparr>number = 7, pigs = 1\<rparr>], selectedCard = Some \<lparr>number = 7, pigs = 1\<rparr>\<rparr>]
       \<longleftrightarrow>
       (\<forall>p \<in> set [\<lparr>pid = ''a'', nickname = ''Ann'', score = 0,
           hand = [\<lparr>number = 7, pigs = 1\<rparr>], selectedCard = Some \<lparr>number = 7, pigs = 1\<rparr>\<rparr>].
          filter (\<lambda>c. Some c \<noteq> selectedCard p) (hand p) = []))"
  by (simp add: isRoundComplete_def)

text \<open>
  Claim C5, as amended. \<open>isRoundComplete\<close> is true exactly when every participant's hand
  is empty; it excludes no card, so a hand that holds only the selected card keeps the
  round open. The exclusion is made by the orchestrator's own check at the end of
  \<open>processCardPlacements\<close>, which is true exactly when there is at least one participant
  and every card left in a hand has the number of its owner's selected card.
\<close>

theorem round_over_checks:
  "(isRoundComplete players \<longleftrightarrow> (\<forall>p \<in> set players. hand p = []))
   \<and> (allHandsEmpty lps \<longleftrightarrow>
        lps \<noteq> [] \<and>
        (\<forall>p \<in> set lps. \<forall>c \<in> set (hand_lp p).
           \<exists>s. selected_card p = Some s \<and> number c = number s))"
proof -
  have "(filter (\<lambda>c. Some (number c) \<noteq> map_option number (selected_card p)) (hand_lp p) = [])
          = (\<forall>c \<in> set (hand_lp p). \<exists>s. selected_card p = Some s \<and> number c = number s)"
    for p :: lobby_player
    by (cases "selected_card p") (auto simp: filter_empty_conv)
  then show ?thesis
    by (simp add: isRoundComplete_def allHandsEmpty_def list_all_iff)
qed

theorem round_over_checks_witness:
  "\<not> isRoundComplete
         [\<lparr>pid = ''a'', nickname = ''Ann'', score = 0,
           hand = [\<lparr>number = 7, pigs = 1\<rparr>], selectedCard = Some \<lparr>number = 7, pigs = 1\<rparr>\<rparr>]
   \<and> allHandsEmpty
         [\<lparr>player_id = ''a'', nickname_lp = ''Ann'', score_lp = 0,
           hand_lp = [\<lparr>number = 7, pigs = 1\<rparr>], selected_card = Some \<lparr>number = 7, pigs = 1\<rparr>\<rparr>]"
  using round_over_checks [of
         "[\<lparr>pid = ''a'', nickname = ''Ann'', score = 0,
           hand = [\<lparr>number = 7, pigs = 1\<rparr>], selectedCard = Some \<lparr>number = 7, pigs = 1\<rparr>\<rparr>]"
         "[\<lparr>player_id = ''a'', nickname_lp = ''Ann'', score_lp = 0,
           hand_lp = [\<lparr>number = 7, pigs = 1\<rparr>], selected_card = Some \<lparr>number = 7, pigs = 1\<rparr>\<rparr>]"]
  by simp

section \<open>Placement policy\<close>

lemma best_ok_step_skip:
  assumes "best_ok c pre best sd" and "number c \<le> lastNumber r"
  shows "best_ok c (pre @ [r]) best sd"
  using assms unfolding best_ok_def
  by (auto simp: nth_append less_Suc_eq)

lemma best_ok_step_keep:
  assumes "best_ok c pre best (Some d)" and "lastNumber r < number c"
    and "\<not> number c - lastNumber r < d"
  shows "best_ok c (pre @ [r]) best (Some d)"
  using assms unfolding best_ok_def
  by (auto simp: nth_append less_Suc_eq)

lemma best_ok_step_take:
  assumes "best_ok c pre best sd" and "lastNumber r < number c"
    and "case sd of None \<Rightarrow> True | Some d \<Rightarrow> number c - lastNumber r < d"
  shows "best_ok c (pre @ [r]) (int (length pre)) (Some (number c - lastNumber r))"
proof (cases sd)
  case None
  then have "\<forall>j<length pre. number c \<le> lastNumber (pre ! j)"
    using assms(1) by (auto simp: best_ok_def)
  then show ?thesis
    using assms(2) unfolding best_ok_def by (auto simp: nth_append less_Suc_eq)
next
  case (Some d)
  then show ?thesis
    using assms unfolding best_ok_def by (auto simp: nth_append less_Suc_eq)
qed

lemma findRowLoop_inv:
  assumes "\<forall>r \<in> set rs. cards r \<noteq> []" and "i = int (length pre)" and "best_ok c pre best sd"
  shows "\<exists>k sd'. findRowLoop c rs i best sd = Inr k \<and> best_ok c (pre @ rs) k sd'"
  using assms
proof (induction rs arbitrary: pre i best sd)
  case Nil
  then show ?case by auto
next
  case (Cons r rs)
  have ne: "cards r \<noteq> []" and rest: "\<forall>r \<in> set rs. cards r \<noteq> []"
    using Cons.prems(1) by simp_all
  have i': "i + 1 = int (length (pre @ [r]))" using Cons.prems(2) by simp
  have app: "pre @ r # rs = (pre @ [r]) @ rs" by simp
  show ?case
  proof (cases "lastNumber r < number c")
    case False
    then have ok: "best_ok c (pre @ [r]) best sd"
      using Cons.prems(3) by (intro best_ok_step_skip) simp_all
    from Cons.IH [OF rest i' ok] False ne show ?thesis
      unfolding app by (simp add: lastNumber_def)
  next
    case True
    show ?thesis
    proof (cases sd)
      case None
      have ok: "best_ok c (pre @ [r]) i (Some (number c - lastNumber r))"
        unfolding Cons.prems(2) using Cons.prems(3) True by (rule best_ok_step_take) (simp add: None)
      from Cons.IH [OF rest i' ok] True None ne show ?thesis
        unfolding app by (simp add: lastNumber_def Let_def)
    next
      case (Some d)
      show ?thesis
      proof (cases "number c - lastNumber r < d")
        case take: True
        have ok: "best_ok c (pre @ [r]) i (Some (number c - lastNumber r))"
          unfolding Cons.prems(2) using Cons.prems(3) True
          by (rule best_ok_step_take) (simp add: Some take)
        from Cons.IH [OF rest i' ok] True Some take ne show ?thesis
          unfolding app by (simp add: lastNumber_def Let_def)
      next
        case keep: False
        have ok: "best_ok c (pre @ [r]) best sd"
          unfolding Some using Cons.prems(3) True keep unfolding Some by (rule best_ok_step_keep)
        from Cons.IH [OF rest i' ok] True Some keep ne show ?thesis
          unfolding app by (simp add: lastNumber_def Let_def)
      qed
    qed
  qed
qed

text \<open>
  Claim C1. On a table whose rows are all non-empty, \<open>findRowForCard\<close> returns -1
  exactly when every row's last card is greater than or equal to the card; otherwise it
  returns the index of a row whose last card is strictly below the card and closest to
  it, and every earlier row with a last card below the card is strictly farther, so
  ties go to the first row in table order.
\<close>

theorem findRowForCard_spec:
  assumes "\<forall>r \<in> set rows. cards r \<noteq> []"
  shows "\<exists>k. findRowForCard c rows = Inr k
     \<and> (k = - 1 \<longleftrightarrow> (\<forall>r \<in> set rows. number c \<le> lastNumber r))
     \<and> (k \<noteq> - 1 \<longrightarrow>
          0 \<le> k \<and> k < int (length rows)
          \<and> lastNumber (rows ! nat k) < number c
          \<and> (\<forall>j<length rows. lastNumber (rows ! j) < number c \<longrightarrow>
                number c - lastNumber (rows ! nat k) \<le> number c - lastNumber (rows ! j))
          \<and> (\<forall>j<nat k. lastNumber (rows ! j) < number c \<longrightarrow>
                number c - lastNumber (rows ! nat k) < number c - lastNumber (rows ! j)))"
proof -
  have "best_ok c [] (- 1) None" by (simp add: best_ok_def)
  from findRowLoop_inv [OF assms _ this, of 0] obtain k sd'
    where k: "findRowForCard c rows = Inr k" "best_ok c rows k sd'"
    by (auto simp: findRowForCard_def)
  have "k = - 1 \<longleftrightarrow> (\<forall>r \<in> set rows. number c \<le> lastNumber r)"
  proof
    assume "k = - 1" then show "\<forall>r \<in> set rows. number c \<le> lastNumber r"
      using k(2) by (auto simp: best_ok_def)
  next
    assume all: "\<forall>r \<in> set rows. number c \<le> lastNumber r"
    show "k = - 1"
    proof (rule ccontr)
      assume "k \<noteq> - 1"
      then have "0 \<le> k" "k < int (length rows)" "lastNumber (rows ! nat k) < number c"
        using k(2) by (auto simp: best_ok_def)
      moreover then have "rows ! nat k \<in> set rows" by simp
      ultimately show False using all by fastforce
    qed
  qed
  moreover have "k \<noteq> - 1 \<longrightarrow>
          0 \<le> k \<and> k < int (length rows)
          \<and> lastNumber (rows ! nat k) < number c
          \<and> (\<forall>j<length rows. lastNumber (rows ! j) < number c \<longrightarrow>
                number c - lastNumber (rows ! nat k) \<le> number c - lastNumber (rows ! j))
          \<and> (\<forall>j<nat k. lastNumber (rows ! j) < number c \<longrightarrow>
                number c - lastNumber (rows ! nat k) < number c - lastNumber (rows ! j))"
    using k(2) by (auto simp: best_ok_def)
  ultimately show ?thesis using k(1) by blast
qed

theorem findRowForCard_spec_witness:
  "findRowForCard \<lparr>number = 10, pigs = 3\<rparr>
          [\<lparr>cards = [\<lparr>number = 2, pigs = 1\<rparr>]\<rparr>, \<lparr>cards = [\<lparr>number = 7, pigs = 1\<rparr>]\<rparr>,
           \<lparr>cards = [\<lparr>number = 15, pigs = 2\<rparr>]\<rparr>, \<lparr>cards = [\<lparr>number = 40, pigs = 3\<rparr>]\<rparr>] = Inr 1
   \<and> findRowForCard \<lparr>number = 1, pigs = 1\<rparr>
          [\<lparr>cards = [\<lparr>number = 2, pigs = 1\<rparr>]\<rparr>, \<lparr>cards = [\<lparr>number = 7, pigs = 1\<rparr>]\<rparr>,
           \<lparr>cards = [\<lparr>number = 15, pigs = 2\<rparr>]\<rparr>, \<lparr>cards = [\<lparr>number = 40, pigs = 3\<rparr>]\<rparr>]
       = Inr (- 1)"
  using findRowForCard_spec [of
          "[\<lparr>cards = [\<lparr>number = 2, pigs = 1\<rparr>]\<rparr>, \<lparr>cards = [\<lparr>number = 7, pigs = 1\<rparr>]\<rparr>,
           \<lparr>cards = [\<lparr>number = 15, pigs = 2\<rparr>]\<rparr>, \<lparr>cards = [\<lparr>number = 40, pigs = 3\<rparr>]\<rparr>]"
          "\<lparr>number = 10, pigs = 3\<rparr>"]
    findRowForCard_spec [of
          "[\<lparr>cards = [\<lparr>number = 2, pigs = 1\<rparr>]\<rparr>, \<lparr>cards = [\<lparr>number = 7, pigs = 1\<rparr>]\<rparr>,
           \<lparr>cards = [\<lparr>number = 15, pigs = 2\<rparr>]\<rparr>, \<lparr>cards = [\<lparr>number = 40, pigs = 3\<rparr>]\<rparr>]"
          "\<lparr>number = 1, pigs = 1\<rparr>"]
  by (simp add: findRowForCard_def)

section \<open>Dealing hands\<close>

lemma dealHand_eq:
  "dealHand deck di k h = (h @ map (\<lambda>j. js_index deck (int j)) [di..<di + k], di + k)"
proof (induction k arbitrary: di h)
  case 0
  then show ?case by simp
next
  case (Suc k)
  have "[di..<di + Suc k] = di # [Suc di..<Suc di + k]"
    by (simp add: upt_conv_Cons)
  then show ?case by (simp add: Suc.IH)
qed

lemma dealLoop_eq:
  "dealLoop deck di k hs =
     (hs @ map (\<lambda>p. sortHand (slots deck (di + 10 * p))) [0..<k], di + 10 * k)"
proof (induction k arbitrary: di hs)
  case 0
  then show ?case by simp
next
  case (Suc k)
  have "map (\<lambda>p. sortHand (slots deck (di + 10 * p))) [0..<Suc k]
        = sortHand (slots deck di) # map (\<lambda>p. sortHand (slots deck (di + 10 + 10 * p))) [0..<k]"
    by (simp only: upt_conv_Cons [of 0 "Suc k"] map_Suc_upt [symmetric] zero_less_Suc)
       (simp add: comp_def add.assoc)
  then show ?case
    by (simp add: dealHand_eq Suc.IH slots_def del: upt_Suc)
qed

lemma dealCards_eq:
  "dealCards deck n =
     \<lparr>hands = map (\<lambda>p. sortHand (slots deck (10 * p))) [0..<n],
      remainingDeck = drop (10 * n) deck\<rparr>"
  by (simp add: dealCards_def dealLoop_eq)

lemma slots_full:
  assumes "di + 10 \<le> length deck"
  shows "slots deck di = map Some (map ((!) deck) [di..<di + 10])"
  using assms by (simp add: slots_def js_index_def)

lemma sortHand_defined: "sortHand (map Some cs) = map Some (sort_key number cs)"
  by (simp add: sortHand_def List.map_filter_def comp_def filter_empty_conv)

text \<open>
  Claim C9. When the deck holds at least \<open>10 * n\<close> cards, \<open>dealCards\<close> returns \<open>n\<close>
  hands of 10 cards each; hand \<open>p\<close> holds exactly the deck's elements
  \<open>10 * p\<close> to \<open>10 * p + 9\<close>, sorted ascending by number; the remainder is the deck
  without its first \<open>10 * n\<close> cards. This holds for every \<open>n\<close>, so for 2 to 10 players.
\<close>

theorem dealCards_spec:
  assumes "10 * n \<le> length deck"
  shows "length (hands (dealCards deck n)) = n
     \<and> (\<forall>p<n. \<exists>h. hands (dealCards deck n) ! p = map Some h
           \<and> length h = 10
           \<and> mset h = mset (map ((!) deck) [10 * p..<10 * p + 10])
           \<and> sorted (map number h))
     \<and> remainingDeck (dealCards deck n) = drop (10 * n) deck"
proof -
  have "\<exists>h. hands (dealCards deck n) ! p = map Some h
           \<and> length h = 10
           \<and> mset h = mset (map ((!) deck) [10 * p..<10 * p + 10])
           \<and> sorted (map number h)" if "p < n" for p
  proof -
    from that assms have "10 * p + 10 \<le> length deck" by simp
    then have "slots deck (10 * p) = map Some (map ((!) deck) [10 * p..<10 * p + 10])"
      by (rule slots_full)
    moreover have "hands (dealCards deck n) ! p = sortHand (slots deck (10 * p))"
      using that by (simp add: dealCards_eq)
    ultimately have "hands (dealCards deck n) ! p
        = map Some (sort_key number (map ((!) deck) [10 * p..<10 * p + 10]))"
      by (simp only: sortHand_defined)
    then show ?thesis
      by (intro exI [of _ "sort_key number (map ((!) deck) [10 * p..<10 * p + 10])"])
         (simp del: upt_Suc)
  qed
  then show ?thesis by (simp add: dealCards_eq)
qed

theorem dealCards_spec_witness:
  "length (hands (dealCards
      (map (\<lambda>n. \<lparr>number = n, pigs = calculatePigValue n\<rparr>)
        [17, 3, 88, 40, 101, 9, 55, 62, 1, 30, 12, 77, 8, 94, 25, 50, 2, 66, 71, 19, 33]) 2)) = 2
   \<and> map number (remainingDeck (dealCards
      (map (\<lambda>n. \<lparr>number = n, pigs = calculatePigValue n\<rparr>)
        [17, 3, 88, 40, 101, 9, 55, 62, 1, 30, 12, 77, 8, 94, 25, 50, 2, 66, 71, 19, 33]) 2)) = [33]"
  using dealCards_spec [of 2
      "map (\<lambda>n. \<lparr>number = n, pigs = calculatePigValue n\<rparr>)
        [17, 3, 88, 40, 101, 9, 55, 62, 1, 30, 12, 77, 8, 94, 25, 50, 2, 66, 71, 19, 33]"]
  by simp

text \<open>
  \<open>dealCards\<close> checks nothing and has no failing path. Whatever the deck, hand \<open>p\<close> holds
  the cards the deck still has at positions \<open>10 * p\<close> to \<open>10 * p + 9\<close>, sorted by number,
  followed by one \<open>undefined\<close> slot for each position past the end of the deck.
\<close>

lemma slots_padded:
  "slots deck di =
     map Some (take 10 (drop di deck)) @ replicate (10 - length (take 10 (drop di deck))) None"
proof (rule nth_equalityI)
  show "length (slots deck di) =
    length (map Some (take 10 (drop di deck)) @ replicate (10 - length (take 10 (drop di deck))) None)"
    by (simp add: slots_def)
next
  fix i assume "i < length (slots deck di)"
  then have i: "i < 10" by (simp add: slots_def)
  then have "slots deck di ! i = js_index deck (int (di + i))"
    by (simp add: slots_def del: upt_Suc)
  also have "\<dots> = (map Some (take 10 (drop di deck))
                    @ replicate (10 - length (take 10 (drop di deck))) None) ! i"
  proof -
    have "js_index deck (int (di + i))
          = (if di + i < length deck then Some (deck ! (di + i)) else None)"
      unfolding js_index_def by (simp only: nat_int of_nat_less_iff of_nat_0_le_iff simp_thms)
    then show ?thesis using i by (auto simp: nth_append)
  qed
  finally show "slots deck di ! i =
    (map Some (take 10 (drop di deck)) @ replicate (10 - length (take 10 (drop di deck))) None) ! i" .
qed

lemma sortHand_padded:
  "sortHand (map Some cs @ replicate k None) = map Some (sort_key number cs) @ replicate k None"
  by (simp add: sortHand_def List.map_filter_def comp_def filter_empty_conv)

lemma dealCards_hand_padded:
  assumes "p < n"
  shows "hands (dealCards deck n) ! p =
     map Some (sort_key number (take 10 (drop (10 * p) deck)))
     @ replicate (10 - length (take 10 (drop (10 * p) deck))) None"
proof -
  have "hands (dealCards deck n) ! p = sortHand (slots deck (10 * p))"
    using assms by (simp add: dealCards_eq)
  then show ?thesis by (simp only: slots_padded sortHand_padded)
qed

section \<open>Starting a new round\<close>

lemma shuffleLoop_mset:
  assumes "i < length xs" and "\<forall>k. rnd k \<le> k"
  shows "mset (shuffleLoop rnd i xs) = mset xs"
  using assms
proof (induction i arbitrary: xs)
  case 0
  then show ?case by simp
next
  case (Suc i)
  let ?j = "rnd (Suc i)"
  let ?ys = "xs[Suc i := xs ! ?j, ?j := xs ! Suc i]"
  have j: "?j < length xs" using Suc.prems by (meson le_less_trans)
  have "mset ?ys = mset xs" using j Suc.prems(1) by (rule mset_swap)
  moreover have "i < length ?ys" using Suc.prems(1) by simp
  ultimately show ?case using Suc.IH [of ?ys] Suc.prems(2) by (simp add: Let_def)
qed

lemma shuffleDeck_mset:
  assumes "\<forall>k. rnd k \<le> k"
  shows "mset (shuffleDeck rnd deck) = mset deck"
proof (cases deck)
  case Nil
  then show ?thesis by (simp add: shuffleDeck_def)
next
  case (Cons a list)
  then have "length deck - 1 < length deck" by simp
  then show ?thesis unfolding shuffleDeck_def using assms by (rule shuffleLoop_mset)
qed

lemma dealCards_from_deck:
  assumes "10 * n \<le> length deck" and "h \<in> set (hands (dealCards deck n))" and "x \<in> set h"
  shows "\<exists>c. x = Some c \<and> c \<in> set deck"
proof -
  from assms(2) obtain p where p: "p < n" "h = sortHand (slots deck (10 * p))"
    by (auto simp: dealCards_eq)
  from p(1) assms(1) have le: "10 * p + 10 \<le> length deck" by simp
  then have "slots deck (10 * p) = map Some (map ((!) deck) [10 * p..<10 * p + 10])"
    by (rule slots_full)
  with p(2) have "h = map Some (sort_key number (map ((!) deck) [10 * p..<10 * p + 10]))"
    by (simp only: sortHand_defined)
  with assms(3) obtain j where "x = Some (deck ! j)" "j < 10 * p + 10"
    by (auto simp del: upt_Suc)
  with le show ?thesis by simp
qed

text \<open>
  Claim C7. When the random draws are in range and at least \<open>10 * n\<close> card numbers
  remain off the table, every slot dealt by \<open>startNewRound\<close> holds a card of the
  104-card deck whose number differs from the number of every card in every row of the
  table.
\<close>

theorem startNewRound_off_table:
  assumes "\<forall>k. rnd k \<le> k"
    and "10 * n \<le> length (filter (\<lambda>c. number c \<notin> set (tableNumbers rows)) createDeck)"
  shows "\<forall>h \<in> set (dealtHands (startNewRound rnd n rows)). \<forall>x \<in> set h.
           \<exists>c. x = Some c \<and> c \<in> set createDeck
              \<and> (\<forall>r \<in> set rows. \<forall>t \<in> set (cards r). number c \<noteq> number t)"
proof (intro ballI)
  fix h x
  assume h: "h \<in> set (dealtHands (startNewRound rnd n rows))" and x: "x \<in> set h"
  define deck where "deck = filter (\<lambda>c. number c \<notin> set (tableNumbers rows)) createDeck"
  have m: "mset (shuffleDeck rnd deck) = mset deck"
    using assms(1) by (rule shuffleDeck_mset)
  then have len: "length (shuffleDeck rnd deck) = length deck"
    by (metis size_mset)
  from m have st: "set (shuffleDeck rnd deck) = set deck"
    by (metis set_mset_mset)
  have "10 * n \<le> length (shuffleDeck rnd deck)"
    using assms(2) len by (simp add: deck_def)
  moreover have "h \<in> set (hands (dealCards (shuffleDeck rnd deck) n))"
    using h by (simp add: startNewRound_def deck_def Let_def)
  ultimately obtain c where c: "x = Some c" "c \<in> set (shuffleDeck rnd deck)"
    using x dealCards_from_deck by blast
  from c(2) st have "c \<in> set createDeck" "number c \<notin> set (tableNumbers rows)"
    by (simp_all add: deck_def)
  then have "\<forall>r \<in> set rows. \<forall>t \<in> set (cards r). number c \<noteq> number t"
    by (auto simp: tableNumbers_def)
  with c(1) \<open>c \<in> set createDeck\<close>
  show "\<exists>c. x = Some c \<and> c \<in> set createDeck
              \<and> (\<forall>r \<in> set rows. \<forall>t \<in> set (cards r). number c \<noteq> number t)"
    by blast
qed

theorem startNewRound_off_table_witness:
  "Some \<lparr>number = 23, pigs = 1\<rparr> \<notin>
     set (concat (dealtHands (startNewRound (\<lambda>i. i div 2) 2
       [\<lparr>cards = [\<lparr>number = 1, pigs = 1\<rparr>]\<rparr>, \<lparr>cards = [\<lparr>number = 23, pigs = 1\<rparr>]\<rparr>,
        \<lparr>cards = [\<lparr>number = 50, pigs = 3\<rparr>]\<rparr>, \<lparr>cards = [\<lparr>number = 99, pigs = - 11\<rparr>]\<rparr>])))"
proof -
  let ?rows = "[\<lparr>cards = [\<lparr>number = 1, pigs = 1\<rparr>]\<rparr>, \<lparr>cards = [\<lparr>number = 23, pigs = 1\<rparr>]\<rparr>,
        \<lparr>cards = [\<lparr>number = 50, pigs = 3\<rparr>]\<rparr>, \<lparr>cards = [\<lparr>number = 99, pigs = - 11\<rparr>]\<rparr>]"
  have rnd: "\<forall>k. (\<lambda>i. i div 2) k \<le> (k::nat)" by simp
  have enough: "10 * 2 \<le> length (filter (\<lambda>c. number c \<notin> set (tableNumbers ?rows)) createDeck)"
    by code_simp
  have "\<forall>h \<in> set (dealtHands (startNewRound (\<lambda>i. i div 2) 2 ?rows)). \<forall>x \<in> set h.
           \<exists>c. x = Some c \<and> c \<in> set createDeck
              \<and> (\<forall>r \<in> set ?rows. \<forall>t \<in> set (cards r). number c \<noteq> number t)"
    using rnd enough by (rule startNewRound_off_table)
  then show ?thesis by fastforce
qed

text \<open>The shuffle keeps the length of the deck, whatever the draws.\<close>

lemma length_shuffleLoop: "length (shuffleLoop rnd i xs) = length xs"
  by (induction i arbitrary: xs) (simp_all add: Let_def)

lemma length_shuffleDeck: "length (shuffleDeck rnd deck) = length deck"
  by (simp add: shuffleDeck_def length_shuffleLoop)

text \<open>
  Claim C6 fails on the code. With 10 players and 5 cards on the table, as at the end of
  a round, \<open>startNewRound\<close> hands \<open>dealCards\<close> a deck of 99 cards for 10 hands. Nothing
  is rejected: whatever the shuffle draws, 10 hands of 10 slots come back and the last
  slot of the tenth hand is \<open>undefined\<close>. With the draws that leave the deck in order,
  the tenth hand is 95, 96, 97, 98, 100, 101, 102, 103, 104 and \<open>undefined\<close>.
\<close>

theorem startNewRound_short_deck:
  "length (filter (\<lambda>c. number c \<notin> set (tableNumbers
       [\<lparr>cards = [\<lparr>number = 1, pigs = 1\<rparr>, \<lparr>number = 2, pigs = 1\<rparr>]\<rparr>,
        \<lparr>cards = [\<lparr>number = 23, pigs = 1\<rparr>]\<rparr>,
        \<lparr>cards = [\<lparr>number = 50, pigs = 3\<rparr>]\<rparr>,
        \<lparr>cards = [\<lparr>number = 99, pigs = - 11\<rparr>]\<rparr>])) createDeck) = 99
   \<and> length (dealtHands (startNewRound rnd 10
       [\<lparr>cards = [\<lparr>number = 1, pigs = 1\<rparr>, \<lparr>number = 2, pigs = 1\<rparr>]\<rparr>,
        \<lparr>cards = [\<lparr>number = 23, pigs = 1\<rparr>]\<rparr>,
        \<lparr>cards = [\<lparr>number = 50, pigs = 3\<rparr>]\<rparr>,
        \<lparr>cards = [\<lparr>number = 99, pigs = - 11\<rparr>]\<rparr>])) = 10
   \<and> length (dealtHands (startNewRound rnd 10
       [\<lparr>cards = [\<lparr>number = 1, pigs = 1\<rparr>, \<lparr>number = 2, pigs = 1\<rparr>]\<rparr>,
        \<lparr>cards = [\<lparr>number = 23, pigs = 1\<rparr>]\<rparr>,
        \<lparr>cards = [\<lparr>number = 50, pigs = 3\<rparr>]\<rparr>,
        \<lparr>cards = [\<lparr>number = 99, pigs = - 11\<rparr>]\<rparr>]) ! 9) = 10
   \<and> last (dealtHands (startNewRound rnd 10
       [\<lparr>cards = [\<lparr>number = 1, pigs = 1\<rparr>, \<lparr>number = 2, pigs = 1\<rparr>]\<rparr>,
        \<lparr>cards = [\<lparr>number = 23, pigs = 1\<rparr>]\<rparr>,
        \<lparr>cards = [\<lparr>number = 50, pigs = 3\<rparr>]\<rparr>,
        \<lparr>cards = [\<lparr>number = 99, pigs = - 11\<rparr>]\<rparr>]) ! 9) = None
   \<and> dealtHands (startNewRound (\<lambda>i. i) 10
       [\<lparr>cards = [\<lparr>number = 1, pigs = 1\<rparr>, \<lparr>number = 2, pigs = 1\<rparr>]\<rparr>,
        \<lparr>cards = [\<lparr>number = 23, pigs = 1\<rparr>]\<rparr>,
        \<lparr>cards = [\<lparr>number = 50, pigs = 3\<rparr>]\<rparr>,
        \<lparr>cards = [\<lparr>number = 99, pigs = - 11\<rparr>]\<rparr>]) ! 9
     = [Some \<lparr>number = 95, pigs = 2\<rparr>, Some \<lparr>number = 96, pigs = 1\<rparr>,
        Some \<lparr>number = 97, pigs = 1\<rparr>, Some \<lparr>number = 98, pigs = 1\<rparr>,
        Some \<lparr>number = 100, pigs = 3\<rparr>, Some \<lparr>number = 101, pigs = 1\<rparr>,
        Some \<lparr>number = 102, pigs = 1\<rparr>, Some \<lparr>number = 103, pigs = 1\<rparr>,
        Some \<lparr>number = 104, pigs = 1\<rparr>, None]"
proof -
  let ?rows = "[\<lparr>cards = [\<lparr>number = 1, pigs = 1\<rparr>, \<lparr>number = 2, pigs = 1\<rparr>]\<rparr>,
        \<lparr>cards = [\<lparr>number = 23, pigs = 1\<rparr>]\<rparr>,
        \<lparr>cards = [\<lparr>number = 50, pigs = 3\<rparr>]\<rparr>,
        \<lparr>cards = [\<lparr>number = 99, pigs = - 11\<rparr>]\<rparr>]"
  define deck where "deck = filter (\<lambda>c. number c \<notin> set (tableNumbers ?rows)) createDeck"
  have len: "length deck = 99"
    unfolding deck_def by code_simp
  have dealt: "dealtHands (startNewRound r 10 ?rows) = hands (dealCards (shuffleDeck r deck) 10)"
    for r
    by (simp add: startNewRound_def deck_def Let_def)
  have tenth: "hands (dealCards (shuffleDeck rnd deck) 10) ! 9 =
     map Some (sort_key number (take 10 (drop (10 * 9) (shuffleDeck rnd deck))))
     @ replicate (10 - length (take 10 (drop (10 * 9) (shuffleDeck rnd deck)))) None"
    by (rule dealCards_hand_padded) simp
  have nine: "length (take 10 (drop (10 * 9) (shuffleDeck rnd deck))) = 9"
    by (simp add: length_shuffleDeck len)
  have "length (hands (dealCards (shuffleDeck rnd deck) 10)) = 10"
    by (simp add: dealCards_eq)
  moreover have "length (hands (dealCards (shuffleDeck rnd deck) 10) ! 9) = 10"
    unfolding tenth using nine by simp
  moreover have "last (hands (dealCards (shuffleDeck rnd deck) 10) ! 9) = None"
    unfolding tenth nine by simp
  moreover have "dealtHands (startNewRound (\<lambda>i. i) 10 ?rows) ! 9
     = [Some \<lparr>number = 95, pigs = 2\<rparr>, Some \<lparr>number = 96, pigs = 1\<rparr>,
        Some \<lparr>number = 97, pigs = 1\<rparr>, Some \<lparr>number = 98, pigs = 1\<rparr>,
        Some \<lparr>number = 100, pigs = 3\<rparr>, Some \<lparr>number = 101, pigs = 1\<rparr>,
        Some \<lparr>number = 102, pigs = 1\<rparr>, Some \<lparr>number = 103, pigs = 1\<rparr>,
        Some \<lparr>number = 104, pigs = 1\<rparr>, None]"
    by code_simp
  ultimately show ?thesis
    using len unfolding dealt deck_def by simp
qed

section \<open>Resolution order of a reveal batch\<close>

text \<open>
  The game screen without row selection resolves the revealed cards in ascending order
  of number, captures included.
\<close>

lemma placeLoop_resolved:
  assumes "\<forall>rc \<in> set rcs. list_ex (\<lambda>p. player_id p = playerId rc) players"
    and "placeLoop players rcs st = Inr r"
  shows "resolved r = resolved st @ rcs"
  using assms
proof (induction rcs arbitrary: st)
  case Nil
  then show ?case by simp
next
  case (Cons rc rcs)
  then show ?case
    by (auto split: sum.splits if_splits)
qed

lemma revealedOf_known:
  "rc \<in> set (revealedOf players) \<Longrightarrow> list_ex (\<lambda>p. player_id p = playerId rc) players"
  by (auto simp: revealedOf_def List.map_filter_def list_ex_iff split: option.splits)

lemma processRevealAndPlace_ascending:
  assumes "processRevealAndPlace players tableRows = Inr r"
  shows "resolved r = sortRevealedCards (revealedOf players)
       \<and> sorted (map (\<lambda>x. number (rcard x)) (resolved r))"
proof -
  have "\<forall>rc \<in> set (sortRevealedCards (revealedOf players)).
          list_ex (\<lambda>p. player_id p = playerId rc) players"
    by (simp add: sortRevealedCards_def revealedOf_known)
  from placeLoop_resolved [OF this assms [unfolded processRevealAndPlace_def]]
  have "resolved r = sortRevealedCards (revealedOf players)" by simp
  then show ?thesis by (simp add: sortRevealedCards_def)
qed

text \<open>
  Claim C3 fails on \<open>processCardPlacements\<close>. The table rows end in 7, 30, 50 and 100;
  the host reveals 12 and the guest reveals 5. The first loop sets the 5 aside, since no
  row qualifies, and places the 12 after the 7; only then does the second loop let the 5
  capture a row, now the row 7, 12 with 2 pigs. So the 12 is resolved before the 5 and
  against a table without the 5's capture, and the guest takes 2 pigs. Resolving in
  ascending order, as the screen without row selection does, the 5 captures the row 7
  for 1 pig and the 12 then joins the row that starts with 5.
\<close>

theorem processCardPlacements_defers_capture:
  "(\<exists>r. processCardPlacements ''host'' (\<lambda>c rows. 0)
          [\<lparr>cards = [\<lparr>number = 7, pigs = 1\<rparr>]\<rparr>, \<lparr>cards = [\<lparr>number = 30, pigs = 3\<rparr>]\<rparr>,
           \<lparr>cards = [\<lparr>number = 50, pigs = 3\<rparr>]\<rparr>, \<lparr>cards = [\<lparr>number = 100, pigs = 3\<rparr>]\<rparr>]
          (sortRevealedCards (revealedOf
            [\<lparr>player_id = ''host'', nickname_lp = ''Ann'', score_lp = 0,
              hand_lp = [\<lparr>number = 12, pigs = 1\<rparr>],
              selected_card = Some \<lparr>number = 12, pigs = 1\<rparr>\<rparr>,
             \<lparr>player_id = ''guest'', nickname_lp = ''Bob'', score_lp = 0,
              hand_lp = [\<lparr>number = 5, pigs = 2\<rparr>],
              selected_card = Some \<lparr>number = 5, pigs = 2\<rparr>\<rparr>])) = Inr r
        \<and> map (\<lambda>x. number (rcard x)) (resolved r) = [12, 5]
        \<and> currentRows r =
            [\<lparr>cards = [\<lparr>number = 5, pigs = 2\<rparr>]\<rparr>, \<lparr>cards = [\<lparr>number = 30, pigs = 3\<rparr>]\<rparr>,
             \<lparr>cards = [\<lparr>number = 50, pigs = 3\<rparr>]\<rparr>, \<lparr>cards = [\<lparr>number = 100, pigs = 3\<rparr>]\<rparr>]
        \<and> playerScoreUpdates r ''guest'' = Some 2)
   \<and> (\<exists>r. processRevealAndPlace
            [\<lparr>player_id = ''host'', nickname_lp = ''Ann'', score_lp = 0,
              hand_lp = [\<lparr>number = 12, pigs = 1\<rparr>],
              selected_card = Some \<lparr>number = 12, pigs = 1\<rparr>\<rparr>,
             \<lparr>player_id = ''guest'', nickname_lp = ''Bob'', score_lp = 0,
              hand_lp = [\<lparr>number = 5, pigs = 2\<rparr>],
              selected_card = Some \<lparr>number = 5, pigs = 2\<rparr>\<rparr>]
          [\<lparr>cards = [\<lparr>number = 7, pigs = 1\<rparr>]\<rparr>, \<lparr>cards = [\<lparr>number = 30, pigs = 3\<rparr>]\<rparr>,
           \<lparr>cards = [\<lparr>number = 50, pigs = 3\<rparr>]\<rparr>, \<lparr>cards = [\<lparr>number = 100, pigs = 3\<rparr>]\<rparr>] = Inr r
        \<and> map (\<lambda>x. number (rcard x)) (resolved r) = [5, 12]
        \<and> currentRows r =
            [\<lparr>cards = [\<lparr>number = 5, pigs = 2\<rparr>, \<lparr>number = 12, pigs = 1\<rparr>]\<rparr>,
             \<lparr>cards = [\<lparr>number = 30, pigs = 3\<rparr>]\<rparr>,
             \<lparr>cards = [\<lparr>number = 50, pigs = 3\<rparr>]\<rparr>, \<lparr>cards = [\<lparr>number = 100, pigs = 3\<rparr>]\<rparr>]
        \<and> playerScoreUpdates r ''guest'' = Some 1)"
  by (simp add: processCardPlacements_def processRevealAndPlace_def sortRevealedCards_def
      revealedOf_def List.map_filter_def findRowForCard_def placeCardInRow_def takeRow_def
      js_index_def calculateRowPigs_def addPigs_def)

end
